theory Spec2Isabelle
  imports Complex_Main
begin

section \<open>Values\<close>

text \<open>
  Host objects are heap objects with an identity; a reference is their address.
\<close>

type_synonym ref = nat

text \<open>
  A JavaScript number is a double: NaN, an infinity (with its sign) or a finite value.
  Every finite double is a rational, and both zeros are the rational 0.
\<close>

datatype jsnum = NaN | Infinity bool | Number rat

datatype jsval =
    VUndefined
  | VNull
  | VBool bool
  | VNum jsnum
  | VBigInt int
  | VStr string
  | VArr "jsval list"
  | VObj ref

text \<open>\<^verbatim>\<open>Boolean(v)\<close>: the standard truthiness of a value.\<close>

fun Boolean :: "jsval \<Rightarrow> bool" where
  "Boolean VUndefined = False"
| "Boolean VNull = False"
| "Boolean (VBool b) = b"
| "Boolean (VNum NaN) = False"
| "Boolean (VNum (Infinity s)) = True"
| "Boolean (VNum (Number q)) = (q \<noteq> 0)"
| "Boolean (VBigInt i) = (i \<noteq> 0)"
| "Boolean (VStr s) = (s \<noteq> [])"
| "Boolean (VArr xs) = True"
| "Boolean (VObj r) = True"

text \<open>\<^verbatim>\<open>Array.isArray(v)\<close>.\<close>

fun isArray :: "jsval \<Rightarrow> bool" where
  "isArray (VArr xs) = True"
| "isArray v = False"

datatype error = TypeError | DisposedError

section \<open>Property names\<close>

text \<open>
  \<^verbatim>\<open>s.replace(/[A-Z]/g, (s) => `-${s.toLowerCase()}`)\<close>: every ASCII capital becomes a
  dash followed by its lower-case letter; every other character is kept.
\<close>

definition isUpper :: "char \<Rightarrow> bool" where
  "isUpper c = (65 \<le> (of_char c :: nat) \<and> (of_char c :: nat) \<le> 90)"

definition toLowerCase :: "char \<Rightarrow> char" where
  "toLowerCase c = (if isUpper c then char_of ((of_char c :: nat) + 32) else c)"

fun kebab :: "string \<Rightarrow> string" where
  "kebab [] = []"
| "kebab (c # cs) = (if isUpper c then CHR ''-'' # toLowerCase c # kebab cs else c # kebab cs)"

section \<open>The notifying property host and the outer accessor\<close>

text \<open>
  The closures that the helpers hand to \<^verbatim>\<open>connect\<close> and \<^verbatim>\<open>subscribe\<close> are stored in the
  host and in the accessor, so they are first-order values here:
  \<^item> \<open>App n\<close> is the application's own callback number \<open>n\<close>; running it records \<open>n\<close>;
  \<^item> \<open>Relay n\<close> is \<^verbatim>\<open>() => notify()\<close> of createSecureBinding, where \<^verbatim>\<open>notify\<close> is the
    parameter of the subscribe function, bound to the application's callback \<open>n\<close>;
  \<^item> \<open>InnerNotify\<close> is \<^verbatim>\<open>() => notify()\<close> of the nested bindings, where \<^verbatim>\<open>notify\<close> is the
    variable of the enclosing function, read when the handler runs;
  \<^item> \<open>BaseSub\<close> is the arrow function the nested bindings subscribe to the outer accessor.
\<close>

datatype callback = App nat | Relay nat | InnerNotify | BaseSub

text \<open>
  An object has own properties and properties inherited from its prototype chain
  (\<^verbatim>\<open>Object.hasOwn\<close> sees the former only, a property read sees both), the handlers
  connected to it with their ids and signal names, and the last handler id handed out.
  A disposed object refuses \<^verbatim>\<open>disconnect\<close>.
\<close>

record obj =
  own :: "string \<rightharpoonup> jsval"
  proto :: "string \<rightharpoonup> jsval"
  disposed :: bool
  handlers :: "(nat \<times> string \<times> callback) list"
  last_id :: nat

text \<open>
  The world of one nested binding: the heap of hosts, the outer accessor (its current
  value, which is a host or absent, and its subscribers), the two variables \<^verbatim>\<open>gobj\<close> and
  \<^verbatim>\<open>notify\<close> of the binding's enclosing function (\<^verbatim>\<open>notify\<close> is \<open>None\<close> while it is
  unassigned), and the notifications delivered to the application's callbacks, oldest first.
  An absent host (\<open>None\<close>) stands for both \<^verbatim>\<open>undefined\<close> and \<^verbatim>\<open>null\<close>: the helpers only
  test it with \<^verbatim>\<open>!\<close>, \<^verbatim>\<open>?:\<close> and \<^verbatim>\<open>?.\<close>, which do not tell them apart.
\<close>

record world =
  heap :: "ref \<Rightarrow> obj"
  outer_value :: "ref option"
  outer_subs :: "(nat \<times> callback) list"
  outer_next :: nat
  env_gobj :: "ref option"
  env_notify :: "nat option"
  notified :: "nat list"

text \<open>
  A call either throws, or returns a value; in both cases the effects it had so far stay.
\<close>

datatype 'a outcome = Throw error world | Return 'a world

fun world_of :: "'a outcome \<Rightarrow> world" where
  "world_of (Throw e w) = w"
| "world_of (Return a w) = w"

fun thrown :: "'a outcome \<Rightarrow> error option" where
  "thrown (Throw e w) = Some e"
| "thrown (Return a w) = None"

text \<open>
  \<^verbatim>\<open>new Accessor(get, subscribe)\<close>: \<^verbatim>\<open>accessor.get()\<close> calls \<open>getter\<close>, and
  \<^verbatim>\<open>accessor.subscribe(callback)\<close> calls \<open>subscribe\<close> with the callback and returns the
  release function that \<open>subscribe\<close> returns.
\<close>

record 'a accessor =
  getter :: "world \<Rightarrow> error + 'a"
  subscribe :: "nat \<Rightarrow> world \<Rightarrow> (world \<Rightarrow> unit outcome) outcome"

text \<open>\<^verbatim>\<open>accessor.as(transform)\<close>: a new accessor over the same subscribe function.\<close>

definition as_accessor :: "('a \<Rightarrow> 'b) \<Rightarrow> 'a accessor \<Rightarrow> 'b accessor" where
  "as_accessor transform a =
     \<lparr> getter = (\<lambda>w. case getter a w of Inl e \<Rightarrow> Inl e | Inr v \<Rightarrow> Inr (transform v)),
       subscribe = subscribe a \<rparr>"

subsection \<open>Property reads\<close>

definition hasOwn :: "obj \<Rightarrow> string \<Rightarrow> bool" where
  "hasOwn ob prop = (own ob prop \<noteq> None)"

definition get_prop :: "obj \<Rightarrow> string \<Rightarrow> jsval" where
  "get_prop ob prop =
     (case own ob prop of
        Some v \<Rightarrow> v
      | None \<Rightarrow> (case proto ob prop of Some v \<Rightarrow> v | None \<Rightarrow> VUndefined))"

subsection \<open>Callbacks\<close>

text \<open>Calling the variable \<^verbatim>\<open>notify\<close>: a TypeError while it is unassigned.\<close>

definition call_notify :: "world \<Rightarrow> unit outcome" where
  "call_notify w =
     (case env_notify w of
        None \<Rightarrow> Throw TypeError w
      | Some n \<Rightarrow> Return () (w\<lparr>notified := notified w @ [n]\<rparr>))"

fun run_callback :: "callback \<Rightarrow> world \<Rightarrow> unit outcome" where
  "run_callback (App n) w = Return () (w\<lparr>notified := notified w @ [n]\<rparr>)"
| "run_callback (Relay n) w = Return () (w\<lparr>notified := notified w @ [n]\<rparr>)"
| "run_callback InnerNotify w = call_notify w"
| "run_callback BaseSub w =
     (let newBase = outer_value w in
      if newBase = None then call_notify (w\<lparr>env_gobj := None\<rparr>)
      else call_notify (w\<lparr>env_gobj := newBase\<rparr>))"

text \<open>Callbacks run in order; the first one that throws ends the run.\<close>

fun run_all :: "callback list \<Rightarrow> world \<Rightarrow> unit outcome" where
  "run_all [] w = Return () w"
| "run_all (cb # cbs) w =
     (case run_callback cb w of
        Throw e w' \<Rightarrow> Throw e w'
      | Return u w' \<Rightarrow> run_all cbs w')"

subsection \<open>The host's operations\<close>

text \<open>\<^verbatim>\<open>connect\<close> hands out a fresh id, never 0.\<close>

definition connect :: "ref \<Rightarrow> string \<Rightarrow> callback \<Rightarrow> world \<Rightarrow> nat outcome" where
  "connect r signal cb w =
     (let ob = heap w r; i = Suc (last_id ob) in
      Return i (w\<lparr>heap := (heap w)(r := ob\<lparr>handlers := handlers ob @ [(i, signal, cb)],
                                            last_id := i\<rparr>)\<rparr>))"

text \<open>
  \<^verbatim>\<open>disconnect\<close> raises on a disposed host; on a live host it removes the handler with
  that id, if there is one.
\<close>

definition disconnect :: "ref \<Rightarrow> nat \<Rightarrow> world \<Rightarrow> unit outcome" where
  "disconnect r i w =
     (let ob = heap w r in
      if disposed ob then Throw DisposedError w
      else Return () (w\<lparr>heap := (heap w)(r := ob\<lparr>handlers :=
                          filter (\<lambda>h. fst h \<noteq> i) (handlers ob)\<rparr>)\<rparr>))"

definition listeners :: "obj \<Rightarrow> string \<Rightarrow> callback list" where
  "listeners ob signal = map (\<lambda>h. snd (snd h)) (filter (\<lambda>h. fst (snd h) = signal) (handlers ob))"

definition emit :: "ref \<Rightarrow> string \<Rightarrow> world \<Rightarrow> unit outcome" where
  "emit r signal w = run_all (listeners (heap w r) signal) w"

text \<open>A property of a host changes: the host emits its rename-mapped change event.\<close>

definition set_property :: "ref \<Rightarrow> string \<Rightarrow> jsval \<Rightarrow> world \<Rightarrow> unit outcome" where
  "set_property r prop v w =
     emit r (''notify::'' @ kebab prop)
       (w\<lparr>heap := (heap w)(r := (heap w r)\<lparr>own := (own (heap w r))(prop \<mapsto> v)\<rparr>)\<rparr>)"

definition dispose :: "ref \<Rightarrow> world \<Rightarrow> world" where
  "dispose r w = w\<lparr>heap := (heap w)(r := (heap w r)\<lparr>disposed := True\<rparr>)\<rparr>"

subsection \<open>The outer accessor's operations\<close>

definition outer_subscribe :: "callback \<Rightarrow> world \<Rightarrow> nat outcome" where
  "outer_subscribe cb w =
     Return (outer_next w)
       (w\<lparr>outer_subs := outer_subs w @ [(outer_next w, cb)], outer_next := Suc (outer_next w)\<rparr>)"

definition outer_release :: "nat \<Rightarrow> world \<Rightarrow> unit outcome" where
  "outer_release i w = Return () (w\<lparr>outer_subs := filter (\<lambda>s. fst s \<noteq> i) (outer_subs w)\<rparr>)"

text \<open>The outer accessor changes: the new value is committed, then its subscribers run.\<close>

definition outer_change :: "ref option \<Rightarrow> world \<Rightarrow> unit outcome" where
  "outer_change v w = run_all (map snd (outer_subs w)) (w\<lparr>outer_value := v\<rparr>)"

section \<open>createSecureBinding\<close>

text \<open>\<^verbatim>\<open>try { m } catch(e) {}\<close>.\<close>

fun try_catch_ignore :: "unit outcome \<Rightarrow> unit outcome" where
  "try_catch_ignore (Throw e w) = Return () w"
| "try_catch_ignore (Return u w) = Return u w"

definition createSecureBinding :: "ref option \<Rightarrow> string \<Rightarrow> jsval \<Rightarrow> jsval accessor" where
  "createSecureBinding gobj prop defaultValue =
     \<lparr> getter = (\<lambda>w.
         Inr (case gobj of
                None \<Rightarrow> defaultValue
              | Some r \<Rightarrow> if hasOwn (heap w r) prop then get_prop (heap w r) prop
                          else defaultValue)),
       subscribe = (\<lambda>notify w.
         case gobj of
           None \<Rightarrow> Throw TypeError w
         | Some r \<Rightarrow>
             (case connect r (''notify::'' @ kebab prop) (Relay notify) w of
                Throw e w' \<Rightarrow> Throw e w'
              | Return i w' \<Rightarrow> Return (\<lambda>w. try_catch_ignore (disconnect r i w)) w')) \<rparr>"

section \<open>createAccessorBinding and createSecureAccessorBinding\<close>

text \<open>
  The parameter \<^verbatim>\<open>accessorObject\<close> (\<^verbatim>\<open>baseObject\<close>) is the outer accessor of the world.
  \<open>optional_connect\<close> is \<^verbatim>\<open>gobj?.connect(signal, handler)\<close>: \<^verbatim>\<open>undefined\<close> for an absent
  host, the new handler id otherwise.
\<close>

definition optional_connect :: "ref option \<Rightarrow> string \<Rightarrow> callback \<Rightarrow> world \<Rightarrow> nat option outcome" where
  "optional_connect gobj signal cb w =
     (case gobj of
        None \<Rightarrow> Return None w
      | Some r \<Rightarrow> (case connect r signal cb w of
                     Throw e w' \<Rightarrow> Throw e w'
                   | Return i w' \<Rightarrow> Return (Some i) w'))"

text \<open>
  The release function both nested bindings return from their subscribe function:
  \<^verbatim>\<open>() => { id && gobj?.disconnect(id); baseSub(); }\<close>, with \<^verbatim>\<open>gobj\<close> read when it runs.
\<close>

definition nested_release :: "nat option \<Rightarrow> nat \<Rightarrow> world \<Rightarrow> unit outcome" where
  "nested_release hid baseSub w =
     (case (case hid of
              None \<Rightarrow> Return () w
            | Some i \<Rightarrow>
                if i = 0 then Return () w
                else (case env_gobj w of
                        None \<Rightarrow> Return () w
                      | Some r \<Rightarrow> disconnect r i w)) of
        Throw e w' \<Rightarrow> Throw e w'
      | Return u w' \<Rightarrow> outer_release baseSub w')"

text \<open>
  The call assigns \<^verbatim>\<open>gobj = accessorObject.get()\<close>, declares \<^verbatim>\<open>notify\<close> without a value,
  subscribes \<open>BaseSub\<close> to the outer accessor, and returns the new accessor. Its getter is
  \<^verbatim>\<open>() => gobj![prop]\<close>: the \<^verbatim>\<open>!\<close> is erased when the program runs, so reading a property
  of an absent host throws a TypeError.
\<close>

definition createAccessorBinding :: "string \<Rightarrow> world \<Rightarrow> jsval accessor outcome" where
  "createAccessorBinding prop w =
     (case outer_subscribe BaseSub (w\<lparr>env_gobj := outer_value w, env_notify := None\<rparr>) of
        Throw e w1 \<Rightarrow> Throw e w1
      | Return baseSub w1 \<Rightarrow>
          Return
            \<lparr> getter = (\<lambda>w.
                case env_gobj w of
                  None \<Rightarrow> Inl TypeError
                | Some r \<Rightarrow> Inr (get_prop (heap w r) prop)),
              subscribe = (\<lambda>notifyFun w.
                case optional_connect (env_gobj w) (''notify::'' @ kebab prop) InnerNotify
                       (w\<lparr>env_notify := Some notifyFun\<rparr>) of
                  Throw e w' \<Rightarrow> Throw e w'
                | Return hid w' \<Rightarrow> Return (nested_release hid baseSub) w') \<rparr>
            w1)"

text \<open>The same, with the getter \<^verbatim>\<open>() => gobj ? gobj[prop] : defaultValue\<close>.\<close>

definition createSecureAccessorBinding :: "string \<Rightarrow> jsval \<Rightarrow> world \<Rightarrow> jsval accessor outcome" where
  "createSecureAccessorBinding prop defaultValue w =
     (case outer_subscribe BaseSub (w\<lparr>env_gobj := outer_value w, env_notify := None\<rparr>) of
        Throw e w1 \<Rightarrow> Throw e w1
      | Return baseSub w1 \<Rightarrow>
          Return
            \<lparr> getter = (\<lambda>w.
                case env_gobj w of
                  None \<Rightarrow> Inr defaultValue
                | Some r \<Rightarrow> Inr (get_prop (heap w r) prop)),
              subscribe = (\<lambda>notifyFun w.
                case optional_connect (env_gobj w) (''notify::'' @ kebab prop) InnerNotify
                       (w\<lparr>env_notify := Some notifyFun\<rparr>) of
                  Throw e w' \<Rightarrow> Throw e w'
                | Return hid w' \<Rightarrow> Return (nested_release hid baseSub) w') \<rparr>
            w1)"

subsection \<open>Using a binding\<close>

text \<open>
  Subscribing to, reading and releasing what a call returned, and what the environment
  does between the calls: the outer accessor changes, a property of a host changes, a
  host is disposed.
\<close>

definition subscribed :: "'a accessor outcome \<Rightarrow> nat \<Rightarrow> (world \<Rightarrow> unit outcome) outcome" where
  "subscribed c n = (case c of Throw e w \<Rightarrow> Throw e w | Return acc w \<Rightarrow> subscribe acc n w)"

definition read :: "'a accessor outcome \<Rightarrow> world \<Rightarrow> error + 'a" where
  "read c w = (case c of Throw e w' \<Rightarrow> Inl e | Return acc w' \<Rightarrow> getter acc w)"

text \<open>Subscribing to what a call returned in a later world \<open>w\<close>.\<close>

definition subscribed_in :: "'a accessor outcome \<Rightarrow> nat \<Rightarrow> world \<Rightarrow> (world \<Rightarrow> unit outcome) outcome" where
  "subscribed_in c n w = (case c of Throw e w' \<Rightarrow> Throw e w' | Return acc w' \<Rightarrow> subscribe acc n w)"

definition released :: "(world \<Rightarrow> unit outcome) outcome \<Rightarrow> world \<Rightarrow> unit outcome" where
  "released s w = (case s of Throw e w' \<Rightarrow> Throw e w' | Return unsub w' \<Rightarrow> unsub w)"

datatype action = OuterChange "ref option" | PropertyChange ref string jsval | Dispose ref

fun perform :: "action \<Rightarrow> world \<Rightarrow> unit outcome" where
  "perform (OuterChange v) w = outer_change v w"
| "perform (PropertyChange r prop v) w = set_property r prop v w"
| "perform (Dispose r) w = Return () (dispose r w)"

fun perform_all :: "action list \<Rightarrow> world \<Rightarrow> unit outcome" where
  "perform_all [] w = Return () w"
| "perform_all (a # acts) w =
     (case perform a w of
        Throw e w' \<Rightarrow> Throw e w'
      | Return u w' \<Rightarrow> perform_all acts w')"

text \<open>
  The callbacks whose run reaches the application's callback \<open>n\<close> of the binding.
\<close>

fun delivers_to :: "nat \<Rightarrow> callback \<Rightarrow> bool" where
  "delivers_to n (App m) = (m = n)"
| "delivers_to n (Relay m) = (m = n)"
| "delivers_to n InnerNotify = True"
| "delivers_to n BaseSub = True"

text \<open>
  What every callback keeps, once \<^verbatim>\<open>notify\<close> is assigned: all but the record of
  notifications and \<^verbatim>\<open>gobj\<close>, which stays or becomes the outer accessor's value. A
  subscribed binding is \<open>tracking\<close> while its outer listener is attached, \<^verbatim>\<open>notify\<close>
  is the subscriber and \<^verbatim>\<open>gobj\<close> is the outer accessor's value.
\<close>

definition keeps :: "world \<Rightarrow> world \<Rightarrow> bool" where
  "keeps w w' =
     (heap w' = heap w \<and> outer_value w' = outer_value w \<and> outer_subs w' = outer_subs w
      \<and> outer_next w' = outer_next w \<and> env_notify w' = env_notify w
      \<and> (env_gobj w' = env_gobj w \<or> env_gobj w' = outer_value w))"

definition tracking :: "nat \<Rightarrow> world \<Rightarrow> bool" where
  "tracking n w =
     (env_notify w = Some n \<and> BaseSub \<in> snd ` set (outer_subs w) \<and> env_gobj w = outer_value w)"

section \<open>toBoolean and transformWidget\<close>

text \<open>
  The helpers tell a plain value from an accessor with \<^verbatim>\<open>instanceof Accessor\<close>; here the
  argument is tagged.
\<close>

datatype 'a reactive = Plain 'a | Reactive "'a accessor"

text \<open>\<^verbatim>\<open>(v as Array<any>).length\<close>, read only where \<^verbatim>\<open>Array.isArray(v)\<close> holds.\<close>

fun array_length :: "jsval \<Rightarrow> nat" where
  "array_length (VArr xs) = length xs"
| "array_length v = 0"

definition toBoolean :: "jsval reactive \<Rightarrow> bool reactive" where
  "toBoolean variable =
     (case variable of
        Reactive a \<Rightarrow>
          Reactive (as_accessor (\<lambda>v. if isArray v then 0 < array_length v else Boolean v) a)
      | Plain v \<Rightarrow>
          Plain (if isArray v then 0 < array_length v else Boolean v))"

text \<open>
  The node transformWidget returns. \<open>ForNode each children\<close> is the call
  \<^verbatim>\<open>For({each, children})\<close>, the keyed list reconciliation, whose renderer receives an
  item and an index accessor; \<open>WithNode v children\<close> is \<^verbatim>\<open>With({value, children})\<close>, the
  single slot; \<open>Elements\<close> is the array that \<^verbatim>\<open>map\<close> collects and \<open>Element\<close> one rendered
  element. The renderer \<^verbatim>\<open>fn\<close> takes the value and an optional index.
\<close>

datatype ('i, 'e) node =
    ForNode "jsval accessor" "jsval \<Rightarrow> 'i \<Rightarrow> 'e"
  | WithNode "jsval accessor" "jsval \<Rightarrow> 'i option \<Rightarrow> 'e"
  | Elements "'e list"
  | Element 'e

definition transformWidget ::
  "jsval reactive \<Rightarrow> (jsval \<Rightarrow> 'i option \<Rightarrow> 'e) \<Rightarrow> world \<Rightarrow> error + ('i, 'e) node" where
  "transformWidget v fn w =
     (case v of
        Reactive a \<Rightarrow>
          (case getter a w of
             Inl e \<Rightarrow> Inl e
           | Inr now \<Rightarrow>
               if isArray now then Inr (ForNode a (\<lambda>cval i. fn cval (Some i)))
               else Inr (WithNode a fn))
      | Plain x \<Rightarrow>
          (case x of
             VArr xs \<Rightarrow> Inr (Elements (map (\<lambda>val. fn val None) xs))
           | _ \<Rightarrow> Inr (Element (fn x None))))"

section \<open>construct\<close>

text \<open>
  The target \<^verbatim>\<open>klass\<close> is one object: its fields, whether it is an instance of
  \<^verbatim>\<open>GObject.Object\<close>, and the record of what was done to it, in order: an assignment
  \<^verbatim>\<open>klass[k] = v\<close> is \<open>Write k v\<close>, a call \<^verbatim>\<open>klass.notify(name)\<close> is \<open>Notify name\<close>.
  The accessors among the props are state cells: a current value and the callbacks
  subscribed to it, each under the id of its subscription.
\<close>

datatype event = Write string jsval | Notify string

text \<open>
  \<open>Assign k v isGObject\<close> is the callback construct subscribes for the key \<open>k\<close> and the
  accessor \<open>v\<close>:
  \<^verbatim>\<open>() => { klass[k] = v.get(); if(isGObject) klass.notify(k.replace(...)) }\<close>.
\<close>

datatype ccallback = Assign string nat bool

record cell =
  cvalue :: jsval
  subscribers :: "(nat \<times> ccallback) list"
  next_sub :: nat

record cworld =
  klass_fields :: "string \<rightharpoonup> jsval"
  klass_isGObject :: bool
  klass_events :: "event list"
  accs :: "nat \<Rightarrow> cell"

text \<open>A prop is a plain value (\<^verbatim>\<open>undefined\<close> among them) or an accessor.\<close>

datatype pvalue = Value jsval | Acc nat

definition assign :: "string \<Rightarrow> jsval \<Rightarrow> cworld \<Rightarrow> cworld" where
  "assign k v w = w\<lparr>klass_fields := (klass_fields w)(k \<mapsto> v),
                     klass_events := klass_events w @ [Write k v]\<rparr>"

definition klass_notify :: "string \<Rightarrow> cworld \<Rightarrow> cworld" where
  "klass_notify name w = w\<lparr>klass_events := klass_events w @ [Notify name]\<rparr>"

fun run_ccallback :: "ccallback \<Rightarrow> cworld \<Rightarrow> cworld" where
  "run_ccallback (Assign k v isGObject) w =
     (let w' = assign k (cvalue (accs w v)) w in
      if isGObject then klass_notify (kebab k) w' else w')"

text \<open>
  \<^verbatim>\<open>v.subscribe(callback)\<close> returns the release function of the new subscription, here
  the pair of the accessor and the subscription's id; \<open>acc_release\<close> runs it.
\<close>

definition acc_subscribe :: "nat \<Rightarrow> ccallback \<Rightarrow> cworld \<Rightarrow> (nat \<times> nat) \<times> cworld" where
  "acc_subscribe a cb w =
     (let c = accs w a in
      ((a, next_sub c),
       w\<lparr>accs := (accs w)(a := c\<lparr>subscribers := subscribers c @ [(next_sub c, cb)],
                                  next_sub := Suc (next_sub c)\<rparr>)\<rparr>))"

definition acc_release :: "nat \<times> nat \<Rightarrow> cworld \<Rightarrow> cworld" where
  "acc_release s w =
     (let c = accs w (fst s) in
      w\<lparr>accs := (accs w)(fst s := c\<lparr>subscribers :=
                   filter (\<lambda>x. fst x \<noteq> snd s) (subscribers c)\<rparr>)\<rparr>)"

text \<open>An accessor changes: the new value is committed, then its subscribers run in order.\<close>

definition acc_change :: "nat \<Rightarrow> jsval \<Rightarrow> cworld \<Rightarrow> cworld" where
  "acc_change a x w =
     (let w' = w\<lparr>accs := (accs w)(a := (accs w a)\<lparr>cvalue := x\<rparr>)\<rparr> in
      fold run_ccallback (map snd (subscribers (accs w' a))) w')"

fun changes :: "(nat \<times> jsval) list \<Rightarrow> cworld \<Rightarrow> cworld" where
  "changes [] w = w"
| "changes ((a, x) # cs) w = changes cs (acc_change a x w)"

text \<open>
  The body of \<^verbatim>\<open>Object.keys(props).forEach(k => ...)\<close>, over the entries of \<^verbatim>\<open>props\<close> in
  the order of \<^verbatim>\<open>Object.keys\<close>, with \<^verbatim>\<open>subs\<close> the array the releases are pushed to.
\<close>

fun construct_each ::
  "bool \<Rightarrow> (string \<times> pvalue) list \<Rightarrow> (nat \<times> nat) list \<Rightarrow> cworld \<Rightarrow> (nat \<times> nat) list \<times> cworld" where
  "construct_each isGObject [] subs w = (subs, w)"
| "construct_each isGObject ((k, Value v) # rest) subs w =
     (if v = VUndefined then construct_each isGObject rest subs w
      else construct_each isGObject rest subs (assign k v w))"
| "construct_each isGObject ((k, Acc v) # rest) subs w =
     (let r = acc_subscribe v (Assign k v isGObject) w in
      construct_each isGObject rest (subs @ [fst r]) (assign k (cvalue (accs (snd r) v)) (snd r)))"

definition construct :: "(string \<times> pvalue) list \<Rightarrow> cworld \<Rightarrow> (nat \<times> nat) list \<times> cworld" where
  "construct props w = construct_each (klass_isGObject w) props [] w"

subsection \<open>What construct is expected to do\<close>

text \<open>The current value of every accessor.\<close>

definition cur :: "cworld \<Rightarrow> nat \<Rightarrow> jsval" where
  "cur w a = cvalue (accs w a)"

text \<open>
  The assignments of the call itself: none for an \<^verbatim>\<open>undefined\<close> entry, the value for a
  plain entry, the accessor's current value for an accessor entry.
\<close>

fun first_writes :: "(nat \<Rightarrow> jsval) \<Rightarrow> (string \<times> pvalue) list \<Rightarrow> event list" where
  "first_writes cv [] = []"
| "first_writes cv ((k, Value v) # rest) =
     (if v = VUndefined then first_writes cv rest else Write k v # first_writes cv rest)"
| "first_writes cv ((k, Acc a) # rest) = Write k (cv a) # first_writes cv rest"

text \<open>
  What a list of subscribed callbacks does when their accessor changes to \<open>x\<close>: each
  re-assigns its field and then, for a GObject target, emits the kebab-case notification.
\<close>

fun change_events :: "jsval \<Rightarrow> ccallback list \<Rightarrow> event list" where
  "change_events x [] = []"
| "change_events x (Assign k v g # cbs) =
     (if g then [Write k x, Notify (kebab k)] else [Write k x]) @ change_events x cbs"

text \<open>The callbacks of the entries bound to the accessor \<open>a\<close>, and the accessor entries.\<close>

fun bound_to :: "nat \<Rightarrow> bool \<Rightarrow> (string \<times> pvalue) list \<Rightarrow> ccallback list" where
  "bound_to a g [] = []"
| "bound_to a g ((k, Value v) # rest) = bound_to a g rest"
| "bound_to a g ((k, Acc b) # rest) =
     (if b = a then Assign k b g # bound_to a g rest else bound_to a g rest)"


text \<open>
  Every callback subscribed to an accessor reads that accessor: so it is in every world
  that construct, changes and releases build from one without subscriptions.
\<close>

definition well_formed :: "cworld \<Rightarrow> bool" where
  "well_formed w = (\<forall>a. \<forall>s \<in> set (subscribers (accs w a)). \<exists>k g. snd s = Assign k a g)"

text \<open>The ids of the subscriptions the call creates, entry by entry.\<close>

definition nexts :: "cworld \<Rightarrow> nat \<Rightarrow> nat" where
  "nexts w a = next_sub (accs w a)"

definition bump :: "(nat \<Rightarrow> nat) \<Rightarrow> nat \<Rightarrow> nat \<Rightarrow> nat" where
  "bump nx b a = (if a = b then Suc (nx a) else nx a)"


fun new_subs :: "nat \<Rightarrow> bool \<Rightarrow> (nat \<Rightarrow> nat) \<Rightarrow> (string \<times> pvalue) list \<Rightarrow> (nat \<times> ccallback) list" where
  "new_subs a g nx [] = []"
| "new_subs a g nx ((k, Value v) # rest) = new_subs a g nx rest"
| "new_subs a g nx ((k, Acc b) # rest) =
     (if b = a then (nx b, Assign k b g) # new_subs a g (bump nx b) rest
      else new_subs a g (bump nx b) rest)"

section \<open>Example worlds\<close>

definition empty_obj :: obj where
  "empty_obj = \<lparr> own = Map.empty, proto = Map.empty, disposed = False, handlers = [], last_id = 0 \<rparr>"

definition num :: "int \<Rightarrow> jsval" where
  "num i = VNum (Number (of_int i))"

text \<open>Host 0 has the own property \<open>p = 5\<close>; every other object is empty.\<close>

definition world_p5 :: world where
  "world_p5 =
     \<lparr> heap = (\<lambda>r. empty_obj)(0 := empty_obj\<lparr>own := [''p'' \<mapsto> num 5]\<rparr>),
       outer_value = None, outer_subs = [], outer_next = 0,
       env_gobj = None, env_notify = None, notified = [] \<rparr>"


text \<open>
  Host 0 (A) has \<open>x = 1\<close>, host 1 (B) has \<open>x = 2\<close>, the outer accessor resolves to A
  and has no subscriber; in \<open>world_absent\<close> it resolves to no host. The bindings below
  are on the property \<open>x\<close>, subscribed by the application's callback 7.
\<close>

definition world_AB :: world where
  "world_AB =
     \<lparr> heap = (\<lambda>r. empty_obj)(0 := empty_obj\<lparr>own := [''x'' \<mapsto> num 1]\<rparr>,
                                 1 := empty_obj\<lparr>own := [''x'' \<mapsto> num 2]\<rparr>),
       outer_value = Some 0, outer_subs = [], outer_next = 0,
       env_gobj = None, env_notify = None, notified = [] \<rparr>"

definition world_absent :: world where
  "world_absent = world_AB\<lparr>outer_value := None\<rparr>"

definition plain_binding :: "jsval accessor outcome" where
  "plain_binding = createAccessorBinding ''x'' world_AB"

definition plain_subscribed :: world where
  "plain_subscribed = world_of (subscribed plain_binding 7)"

definition secure_binding :: "jsval accessor outcome" where
  "secure_binding = createSecureAccessorBinding ''x'' (num (- 1)) world_AB"

definition secure_subscribed :: world where
  "secure_subscribed = world_of (subscribed secure_binding 7)"

definition late_binding :: "jsval accessor outcome" where
  "late_binding = createAccessorBinding ''x'' world_absent"

definition late_subscribed :: world where
  "late_subscribed = world_of (subscribed late_binding 7)"

definition host_changed :: world where
  "host_changed = world_of (outer_change (Some 1) plain_subscribed)"

text \<open>
  The first subscription released, and a second subscription (callback 8) taken after it;
  the same where the outer accessor moved to host B before the second subscription.
\<close>

definition plain_unsubscribed :: world where
  "plain_unsubscribed = world_of (released (subscribed plain_binding 7) plain_subscribed)"

definition plain_resubscribed :: world where
  "plain_resubscribed = world_of (subscribed_in plain_binding 8 plain_unsubscribed)"

definition plain_moved_resubscribed :: world where
  "plain_moved_resubscribed =
     world_of (subscribed_in plain_binding 8 (world_of (outer_change (Some 1) plain_unsubscribed)))"

definition secure_unsubscribed :: world where
  "secure_unsubscribed = world_of (released (subscribed secure_binding 7) secure_subscribed)"

definition secure_resubscribed :: world where
  "secure_resubscribed = world_of (subscribed_in secure_binding 8 secure_unsubscribed)"

definition secure_released :: "world \<Rightarrow> unit outcome" where
  "secure_released = released (subscribe (createSecureBinding (Some 0) ''p'' (num (- 1))) 7 world_p5)"

text \<open>
  A GObject target without fields, every accessor holding 2 and nobody subscribed;
  the props \<^verbatim>\<open>{a: 1, fooBar: accessor 0, c: undefined}\<close>.
\<close>

definition cworld0 :: cworld where
  "cworld0 = \<lparr> klass_fields = Map.empty, klass_isGObject = True, klass_events = [],
               accs = (\<lambda>a. \<lparr> cvalue = num 2, subscribers = [], next_sub = 0 \<rparr>) \<rparr>"

definition props0 :: "(string \<times> pvalue) list" where
  "props0 = [(''a'', Value (num 1)), (''fooBar'', Acc 0), (''c'', Value VUndefined)]"

section \<open>Theorems\<close>




text \<open>
  C8. toBoolean: the empty string, zero, false, undefined and null give false; an empty
  array gives false and a non-empty one true; every other plain value gives its standard
  truthiness; an accessor gives an accessor of booleans over the same subscribe function,
  whose reads apply the same rule to what the input accessor reads.
\<close>

theorem toBoolean_rule:
  "toBoolean (Plain (VStr [])) = Plain False
   \<and> toBoolean (Plain (num 0)) = Plain False
   \<and> toBoolean (Plain (VBool False)) = Plain False
   \<and> toBoolean (Plain VUndefined) = Plain False
   \<and> toBoolean (Plain VNull) = Plain False
   \<and> toBoolean (Plain (VArr [])) = Plain False
   \<and> toBoolean (Plain (VArr (x # xs))) = Plain True
   \<and> (\<not> isArray v \<longrightarrow> toBoolean (Plain v) = Plain (Boolean v))
   \<and> toBoolean (Plain (VStr ''x'')) = Plain True
   \<and> toBoolean (Plain (num 1)) = Plain True
   \<and> toBoolean (Plain (VBool True)) = Plain True
   \<and> (\<exists>b. toBoolean (Reactive a) = Reactive b
          \<and> subscribe b = subscribe a
          \<and> (\<forall>w u. getter a w = Inr u \<longrightarrow>
                (\<exists>c. toBoolean (Plain u) = Plain c \<and> getter b w = Inr c))
          \<and> (\<forall>w e. getter a w = Inl e \<longrightarrow> getter b w = Inl e))"
  by (simp add: toBoolean_def as_accessor_def num_def)

theorem toBoolean_rule_witness:
  "toBoolean (Plain (VNum NaN)) = Plain False
   \<and> toBoolean (Plain (VObj 3)) = Plain True
   \<and> (\<exists>b. toBoolean (Reactive (createSecureBinding (Some 0) ''p'' (VArr []))) = Reactive b
          \<and> getter b world_p5 = Inr True)"
proof -
  let ?a = "createSecureBinding (Some 0) ''p'' (VArr [])"
  have g: "getter ?a world_p5 = Inr (num 5)"
    by (simp add: createSecureBinding_def world_p5_def empty_obj_def hasOwn_def get_prop_def)
  from toBoolean_rule [of "VNull" "[]" "VNum NaN" ?a]
  obtain b where b: "toBoolean (Reactive ?a) = Reactive b"
    and rd: "\<forall>w u. getter ?a w = Inr u \<longrightarrow> (\<exists>c. toBoolean (Plain u) = Plain c \<and> getter b w = Inr c)"
    and nan: "toBoolean (Plain (VNum NaN)) = Plain False"
    by auto
  from rd g obtain c where c: "toBoolean (Plain (num 5)) = Plain c" "getter b world_p5 = Inr c"
    by blast
  have "toBoolean (Plain (num 5)) = Plain True"
    by (simp add: toBoolean_def num_def)
  with c have t: "getter b world_p5 = Inr True" by simp
  have o: "toBoolean (Plain (VObj 3)) = Plain True"
    using toBoolean_rule [of "VNull" "[]" "VObj 3" ?a] by simp
  from nan o b t show ?thesis by blast
qed

text \<open>
  C9. transformWidget: an accessor whose current value is an array goes to the keyed list
  reconciliation, whose renderer calls \<^verbatim>\<open>fn\<close> with the item and the index accessor; an
  accessor of anything else goes to the single slot with \<^verbatim>\<open>fn\<close> itself; a plain array is
  mapped eagerly, \<^verbatim>\<open>fn\<close> called with each item alone; a plain scalar is one call of \<^verbatim>\<open>fn\<close>.
\<close>

theorem transformWidget_dispatch:
  "(getter a w = Inr now \<and> isArray now \<longrightarrow>
      transformWidget (Reactive a) fn w = Inr (ForNode a (\<lambda>cval i. fn cval (Some i))))
   \<and> (getter a w = Inr now \<and> \<not> isArray now \<longrightarrow>
      transformWidget (Reactive a) fn w = Inr (WithNode a fn))
   \<and> transformWidget (Plain (VArr xs)) fn w = Inr (Elements (map (\<lambda>val. fn val None) xs))
   \<and> (\<not> isArray x \<longrightarrow> transformWidget (Plain x) fn w = Inr (Element (fn x None)))"
  by (cases x) (simp_all add: transformWidget_def)

theorem transformWidget_dispatch_witness:
  "transformWidget (Reactive (createSecureBinding None ''p'' (VArr [num 1, num 2]))) (\<lambda>v i. (v, i)) world_p5
     = Inr (ForNode (createSecureBinding None ''p'' (VArr [num 1, num 2])) (\<lambda>cval i. (cval, Some (i::nat))))
   \<and> transformWidget (Reactive (createSecureBinding (Some 0) ''p'' VNull)) (\<lambda>v i. (v, i::nat option)) world_p5
     = Inr (WithNode (createSecureBinding (Some 0) ''p'' VNull) (\<lambda>v i. (v, i)))
   \<and> transformWidget (Plain (VArr [num 1, num 2])) (\<lambda>v i. (v, i::nat option)) world_p5
     = Inr (Elements [(num 1, None), (num 2, None)])
   \<and> transformWidget (Plain (num 7)) (\<lambda>v i. (v, i::nat option)) world_p5
     = Inr (Element (num 7, None))"
proof -
  let ?a = "createSecureBinding None ''p'' (VArr [num 1, num 2])"
  let ?b = "createSecureBinding (Some 0) ''p'' VNull"
  let ?fn = "\<lambda>(v::jsval) (i::nat option). (v, i)"
  have ga: "getter ?a world_p5 = Inr (VArr [num 1, num 2]) \<and> isArray (VArr [num 1, num 2])"
    by (simp add: createSecureBinding_def)
  have gb: "getter ?b world_p5 = Inr (num 5) \<and> \<not> isArray (num 5)"
    by (simp add: createSecureBinding_def world_p5_def empty_obj_def hasOwn_def get_prop_def num_def)
  have n7: "\<not> isArray (num 7)" by (simp add: num_def)
  from transformWidget_dispatch [of ?a world_p5 "VArr [num 1, num 2]" ?fn "[num 1, num 2]" "num 7"]
       transformWidget_dispatch [of ?b world_p5 "num 5" ?fn "[]" "num 7"]
       ga gb n7
  show ?thesis by simp
qed

subsection \<open>The nested bindings\<close>

lemma run_callback_keeps:
  "env_notify w = Some n \<Longrightarrow>
   \<exists>w'. run_callback cb w = Return () w' \<and> keeps w w'
        \<and> (cb = BaseSub \<longrightarrow> env_gobj w' = outer_value w)"
  by (cases cb) (auto simp: keeps_def call_notify_def Let_def)

lemma run_all_keeps:
  "env_notify w = Some n \<Longrightarrow>
   \<exists>w'. run_all cbs w = Return () w' \<and> keeps w w'
        \<and> (BaseSub \<in> set cbs \<longrightarrow> env_gobj w' = outer_value w)"
proof (induction cbs arbitrary: w)
  case Nil
  then show ?case by (simp add: keeps_def)
next
  case (Cons cb cbs)
  from run_callback_keeps [OF Cons.prems, of cb]
  obtain w1 where r1: "run_callback cb w = Return () w1" and k1: "keeps w w1"
    and b1: "cb = BaseSub \<longrightarrow> env_gobj w1 = outer_value w" by blast
  from k1 Cons.prems have n1: "env_notify w1 = Some n" by (simp add: keeps_def)
  from Cons.IH [OF n1]
  obtain w2 where r2: "run_all cbs w1 = Return () w2" and k2: "keeps w1 w2"
    and b2: "BaseSub \<in> set cbs \<longrightarrow> env_gobj w2 = outer_value w1" by blast
  have k: "keeps w w2" using k1 k2 by (auto simp: keeps_def)
  have b: "BaseSub \<in> set (cb # cbs) \<longrightarrow> env_gobj w2 = outer_value w"
    using b1 b2 k1 k2 by (auto simp: keeps_def)
  from r1 r2 k b show ?case by simp
qed

lemma run_all_append:
  "run_all (xs @ ys) w =
     (case run_all xs w of Throw e w' \<Rightarrow> Throw e w' | Return u w' \<Rightarrow> run_all ys w')"
  by (induction xs arbitrary: w) (simp_all split: outcome.splits)

lemma run_all_quiet:
  "env_notify w = Some n \<Longrightarrow> \<forall>cb \<in> set cbs. \<not> delivers_to n cb \<Longrightarrow>
   \<exists>w'. run_all cbs w = Return () w' \<and> keeps w w' \<and> env_gobj w' = env_gobj w
        \<and> count_list (notified w') n = count_list (notified w) n"
proof (induction cbs arbitrary: w)
  case Nil
  then show ?case by (simp add: keeps_def)
next
  case (Cons cb cbs)
  from Cons.prems(2) have q: "\<not> delivers_to n cb" by simp
  then have "\<exists>w1. run_callback cb w = Return () w1 \<and> keeps w w1 \<and> env_gobj w1 = env_gobj w
        \<and> count_list (notified w1) n = count_list (notified w) n"
    by (cases cb) (auto simp: keeps_def)
  then obtain w1 where r1: "run_callback cb w = Return () w1" and k1: "keeps w w1"
    and g1: "env_gobj w1 = env_gobj w"
    and c1: "count_list (notified w1) n = count_list (notified w) n" by blast
  from k1 Cons.prems(1) have n1: "env_notify w1 = Some n" by (simp add: keeps_def)
  from Cons.prems(2) have "\<forall>cb \<in> set cbs. \<not> delivers_to n cb" by simp
  from Cons.IH [OF n1 this]
  obtain w2 where r2: "run_all cbs w1 = Return () w2" and k2: "keeps w1 w2"
    and g2: "env_gobj w2 = env_gobj w1"
    and c2: "count_list (notified w2) n = count_list (notified w1) n" by blast
  have "keeps w w2" using k1 k2 by (auto simp: keeps_def)
  with r1 r2 g1 g2 c1 c2 show ?case by simp
qed

lemma perform_tracking:
  "tracking n w \<Longrightarrow>
   \<exists>w'. perform a w = Return () w' \<and> tracking n w' \<and> outer_subs w' = outer_subs w"
proof (cases a)
  case (OuterChange v)
  assume t: "tracking n w"
  let ?w = "w\<lparr>outer_value := v\<rparr>"
  from t have n: "env_notify ?w = Some n" by (simp add: tracking_def)
  from run_all_keeps [OF n, of "map snd (outer_subs w)"]
  obtain w' where r: "run_all (map snd (outer_subs w)) ?w = Return () w'" and k: "keeps ?w w'"
    and b: "BaseSub \<in> set (map snd (outer_subs w)) \<longrightarrow> env_gobj w' = outer_value ?w" by blast
  from t b have "env_gobj w' = outer_value ?w" by (simp add: tracking_def)
  with k t have "tracking n w' \<and> outer_subs w' = outer_subs w"
    by (simp add: tracking_def keeps_def)
  with r OuterChange show ?thesis by (simp add: outer_change_def)
next
  case (PropertyChange r p v)
  assume t: "tracking n w"
  let ?w = "w\<lparr>heap := (heap w)(r := (heap w r)\<lparr>own := (own (heap w r))(p \<mapsto> v)\<rparr>)\<rparr>"
  from t have n: "env_notify ?w = Some n" by (simp add: tracking_def)
  from run_all_keeps [OF n, of "listeners (heap ?w r) (''notify::'' @ kebab p)"]
  obtain w' where r: "run_all (listeners (heap ?w r) (''notify::'' @ kebab p)) ?w = Return () w'"
    and k: "keeps ?w w'" by blast
  from k t have "tracking n w' \<and> outer_subs w' = outer_subs w"
    by (auto simp: tracking_def keeps_def)
  with r PropertyChange show ?thesis by (simp add: set_property_def emit_def)
next
  case (Dispose r)
  assume "tracking n w"
  with Dispose show ?thesis by (simp add: tracking_def dispose_def)
qed

lemma perform_all_tracking:
  "tracking n w \<Longrightarrow>
   \<exists>w'. perform_all acts w = Return () w' \<and> tracking n w' \<and> outer_subs w' = outer_subs w"
proof (induction acts arbitrary: w)
  case Nil
  then show ?case by simp
next
  case (Cons a acts)
  from perform_tracking [OF Cons.prems, of a]
  obtain w1 where p1: "perform a w = Return () w1" and t1: "tracking n w1"
    and s1: "outer_subs w1 = outer_subs w" by blast
  from Cons.IH [OF t1]
  obtain w2 where "perform_all acts w1 = Return () w2" "tracking n w2" "outer_subs w2 = outer_subs w1"
    by blast
  with p1 s1 show ?case by simp
qed

lemma optional_connect_returns:
  "\<exists>hid w'. optional_connect g signal cb w = Return hid w' \<and> env_gobj w' = env_gobj w
     \<and> env_notify w' = env_notify w \<and> outer_subs w' = outer_subs w \<and> outer_value w' = outer_value w"
  by (cases g) (simp_all add: optional_connect_def connect_def Let_def)

text \<open>
  While the first subscription lasts: createSecureAccessorBinding with default \<open>d\<close>,
  created over an outer accessor that resolves to no host, reads \<open>d\<close>; once subscribed
  and not yet released, whatever the environment does, nothing throws, and it reads \<open>d\<close>
  whenever the outer accessor resolves to no host; a change of the outer accessor to no
  host returns, the binding then reads \<open>d\<close>, and the subscriber has been notified exactly
  once more (no other subscriber of the outer accessor reaching it).
\<close>

lemma secure_binding_first_subscription:
  assumes "createSecureAccessorBinding prop d w = Return acc w1"
  shows "(outer_value w = None \<longrightarrow> getter acc w1 = Inr d)
    \<and> (\<forall>n. \<exists>unsub w2. subscribe acc n w1 = Return unsub w2)
    \<and> (\<forall>n unsub w2 acts. subscribe acc n w1 = Return unsub w2 \<longrightarrow>
         (\<exists>w3. perform_all acts w2 = Return () w3
            \<and> (outer_value w3 = None \<longrightarrow> getter acc w3 = Inr d)
            \<and> (\<exists>w4. outer_change None w3 = Return () w4
                  \<and> getter acc w4 = Inr d
                  \<and> ((\<forall>s \<in> set (outer_subs w). \<not> delivers_to n (snd s)) \<longrightarrow>
                       count_list (notified w4) n = Suc (count_list (notified w3) n)))))"
proof -
  let ?sig = "''notify::'' @ kebab prop"
  from assms have w1: "w1 = w\<lparr>env_gobj := outer_value w, env_notify := None,
        outer_subs := outer_subs w @ [(outer_next w, BaseSub)], outer_next := Suc (outer_next w)\<rparr>"
    and get: "\<And>v. getter acc v = (case env_gobj v of None \<Rightarrow> Inr d | Some r \<Rightarrow> Inr (get_prop (heap v r) prop))"
    and sub: "\<And>n v. subscribe acc n v =
        (case optional_connect (env_gobj v) ?sig InnerNotify (v\<lparr>env_notify := Some n\<rparr>) of
           Throw e w' \<Rightarrow> Throw e w'
         | Return hid w' \<Rightarrow> Return (nested_release hid (outer_next w)) w')"
    by (auto simp: createSecureAccessorBinding_def outer_subscribe_def)
  have c1: "outer_value w = None \<longrightarrow> getter acc w1 = Inr d"
    by (simp add: get w1)
  have c2: "\<forall>n. \<exists>unsub w2. subscribe acc n w1 = Return unsub w2"
  proof
    fix n
    from optional_connect_returns [of "env_gobj w1" ?sig InnerNotify "w1\<lparr>env_notify := Some n\<rparr>"]
    show "\<exists>unsub w2. subscribe acc n w1 = Return unsub w2" by (auto simp: sub)
  qed
  have c3: "\<forall>n unsub w2 acts. subscribe acc n w1 = Return unsub w2 \<longrightarrow>
         (\<exists>w3. perform_all acts w2 = Return () w3
            \<and> (outer_value w3 = None \<longrightarrow> getter acc w3 = Inr d)
            \<and> (\<exists>w4. outer_change None w3 = Return () w4
                  \<and> getter acc w4 = Inr d
                  \<and> ((\<forall>s \<in> set (outer_subs w). \<not> delivers_to n (snd s)) \<longrightarrow>
                       count_list (notified w4) n = Suc (count_list (notified w3) n))))"
  proof (intro allI impI)
    fix n unsub w2 acts
    assume s: "subscribe acc n w1 = Return unsub w2"
    from optional_connect_returns [of "env_gobj w1" ?sig InnerNotify "w1\<lparr>env_notify := Some n\<rparr>"] s
    have t2: "tracking n w2" and s2: "outer_subs w2 = outer_subs w @ [(outer_next w, BaseSub)]"
      by (auto simp: sub tracking_def w1)
    from perform_all_tracking [OF t2, of acts]
    obtain w3 where p3: "perform_all acts w2 = Return () w3" and t3: "tracking n w3"
      and s3: "outer_subs w3 = outer_subs w2" by blast
    have g3: "outer_value w3 = None \<longrightarrow> getter acc w3 = Inr d"
      using t3 by (simp add: get tracking_def)
    let ?w = "w3\<lparr>outer_value := None\<rparr>"
    from t3 have n3: "env_notify ?w = Some n" by (simp add: tracking_def)
    from run_all_keeps [OF n3, of "map snd (outer_subs w3)"] t3
    obtain w4 where r4: "outer_change None w3 = Return () w4" and g4: "env_gobj w4 = None"
      by (auto simp: outer_change_def tracking_def)
    have q: "(\<forall>s \<in> set (outer_subs w). \<not> delivers_to n (snd s)) \<longrightarrow>
                       count_list (notified w4) n = Suc (count_list (notified w3) n)"
    proof
      assume "\<forall>s \<in> set (outer_subs w). \<not> delivers_to n (snd s)"
      then have "\<forall>cb \<in> set (map snd (outer_subs w)). \<not> delivers_to n cb" by simp
      from run_all_quiet [OF n3 this]
      obtain w' where r': "run_all (map snd (outer_subs w)) ?w = Return () w'"
        and k': "keeps ?w w'"
        and c': "count_list (notified w') n = count_list (notified ?w) n" by blast
      from k' n3 have "env_notify w' = Some n" and "outer_value w' = None"
        by (simp_all add: keeps_def)
      with r' r4 c' show "count_list (notified w4) n = Suc (count_list (notified w3) n)"
        by (auto simp: outer_change_def s3 s2 run_all_append call_notify_def)
    qed
    from p3 g3 r4 g4 q
    show "\<exists>w3. perform_all acts w2 = Return () w3
            \<and> (outer_value w3 = None \<longrightarrow> getter acc w3 = Inr d)
            \<and> (\<exists>w4. outer_change None w3 = Return () w4
                  \<and> getter acc w4 = Inr d
                  \<and> ((\<forall>s \<in> set (outer_subs w). \<not> delivers_to n (snd s)) \<longrightarrow>
                       count_list (notified w4) n = Suc (count_list (notified w3) n)))"
      by (simp add: get)
  qed
  from c1 c2 c3 show ?thesis by blast
qed

lemmas scenario_defs =
  plain_binding_def plain_subscribed_def secure_binding_def secure_subscribed_def
  late_binding_def late_subscribed_def world_absent_def
  plain_unsubscribed_def plain_resubscribed_def plain_moved_resubscribed_def
  secure_unsubscribed_def secure_resubscribed_def subscribed_in_def
  createAccessorBinding_def createSecureAccessorBinding_def subscribed_def read_def released_def
  nested_release_def optional_connect_def outer_subscribe_def outer_release_def outer_change_def
  connect_def disconnect_def emit_def listeners_def set_property_def dispose_def call_notify_def
  get_prop_def world_AB_def empty_obj_def Let_def

lemma secure_binding_first_subscription_example:
  "read secure_binding (world_of (outer_change None secure_subscribed)) = Inr (num (- 1))
   \<and> count_list (notified (world_of (outer_change None secure_subscribed))) 7 = 1
   \<and> read (createSecureAccessorBinding ''x'' (num (- 1)) world_absent)
        (world_of (createSecureAccessorBinding ''x'' (num (- 1)) world_absent)) = Inr (num (- 1))"
proof -
  obtain acc w1 where c: "createSecureAccessorBinding ''x'' (num (- 1)) world_AB = Return acc w1"
    by (simp add: createSecureAccessorBinding_def outer_subscribe_def)
  obtain acc' w1' where c': "createSecureAccessorBinding ''x'' (num (- 1)) world_absent = Return acc' w1'"
    by (simp add: createSecureAccessorBinding_def outer_subscribe_def)
  note t = secure_binding_first_subscription [OF c]
  note t' = secure_binding_first_subscription [OF c']
  from t obtain unsub w2 where s: "subscribe acc 7 w1 = Return unsub w2" by blast
  have w2: "secure_subscribed = w2" by (simp add: secure_subscribed_def secure_binding_def subscribed_def c s)
  have n2: "notified w2 = []"
    using w2 [symmetric] by (simp add: scenario_defs)
  from t s have "\<exists>w3. perform_all [] w2 = Return () w3
            \<and> (\<exists>w4. outer_change None w3 = Return () w4
                  \<and> getter acc w4 = Inr (num (- 1))
                  \<and> ((\<forall>s \<in> set (outer_subs world_AB). \<not> delivers_to 7 (snd s)) \<longrightarrow>
                       count_list (notified w4) 7 = Suc (count_list (notified w3) 7)))"
    by blast
  then obtain w4 where r4: "outer_change None w2 = Return () w4"
    and g4: "getter acc w4 = Inr (num (- 1))"
    and q: "(\<forall>s \<in> set (outer_subs world_AB). \<not> delivers_to 7 (snd s)) \<longrightarrow>
                       count_list (notified w4) 7 = Suc (count_list (notified w2) 7)"
    by auto
  have "outer_subs world_AB = []" by (simp add: world_AB_def)
  with q n2 have c4: "count_list (notified w4) 7 = 1" by simp
  from t' have "getter acc' w1' = Inr (num (- 1))" by (simp add: world_absent_def)
  with g4 c4 show ?thesis by (simp add: w2 r4 read_def secure_binding_def c c')
qed

lemma nested_created:
  assumes "create = createAccessorBinding prop \<or> create = createSecureAccessorBinding prop d"
    and "create w = Return acc w1"
  shows "w1 = w\<lparr>env_gobj := outer_value w, env_notify := None,
            outer_subs := outer_subs w @ [(outer_next w, BaseSub)], outer_next := Suc (outer_next w)\<rparr>"
    and "subscribe acc n v =
        (case optional_connect (env_gobj v) (''notify::'' @ kebab prop) InnerNotify (v\<lparr>env_notify := Some n\<rparr>) of
           Throw e w' \<Rightarrow> Throw e w'
         | Return hid w' \<Rightarrow> Return (nested_release hid (outer_next w)) w')"
  using assms by (auto simp: createAccessorBinding_def createSecureAccessorBinding_def outer_subscribe_def)

lemma nested_subscribe_returns:
  assumes "create = createAccessorBinding prop \<or> create = createSecureAccessorBinding prop d"
    and "create w = Return acc w1"
  shows "\<exists>unsub w2. subscribe acc n v = Return unsub w2"
  using optional_connect_returns [of "env_gobj v" "''notify::'' @ kebab prop" InnerNotify
      "v\<lparr>env_notify := Some n\<rparr>"]
  by (auto simp: nested_created(2) [OF assms])

text \<open>
  C5, as stated, fails: the release function of the nested bindings propagates the error
  that \<^verbatim>\<open>disconnect\<close> raises on a disposed host.
\<close>

theorem nested_release_unguarded_counterexample:
  "disposed (heap (dispose 0 plain_subscribed) 0)
   \<and> released (subscribed plain_binding 7) (dispose 0 plain_subscribed)
       = Throw DisposedError (dispose 0 plain_subscribed)
   \<and> released (subscribed secure_binding 7) (dispose 0 secure_subscribed)
       = Throw DisposedError (dispose 0 secure_subscribed)"
  by (simp add: scenario_defs isUpper_def)

text \<open>
  C5, amended. Subscribing to the accessor of createSecureBinding returns a release
  function that never throws: on a disposed host the error of \<^verbatim>\<open>disconnect\<close> is caught
  and nothing changes, on a live host the handler is disconnected. The release function of
  createAccessorBinding calls \<^verbatim>\<open>disconnect\<close> unguarded: on a disposed host it throws.
\<close>

theorem createSecureBinding_release_guarded:
  "(\<exists>unsub w1. subscribe (createSecureBinding (Some r) prop d) n w = Return unsub w1)
   \<and> (\<forall>unsub w1. subscribe (createSecureBinding (Some r) prop d) n w = Return unsub w1 \<longrightarrow>
         (\<forall>v. \<exists>v'. unsub v = Return () v')
         \<and> (\<forall>v. disposed (heap v r) \<longrightarrow> unsub v = Return () v)
         \<and> (\<forall>v. \<not> disposed (heap v r) \<longrightarrow>
               (\<exists>v'. unsub v = Return () v'
                  \<and> handlers (heap v' r) =
                      filter (\<lambda>h. fst h \<noteq> Suc (last_id (heap w r))) (handlers (heap v r)))))
   \<and> (\<forall>acc w1 unsub w2 v. createAccessorBinding prop w = Return acc w1
         \<and> outer_value w = Some r \<and> subscribe acc n w1 = Return unsub w2
         \<and> env_gobj v = Some r \<and> disposed (heap v r) \<longrightarrow>
         unsub v = Throw DisposedError v)"
proof -
  have c1: "\<exists>unsub w1. subscribe (createSecureBinding (Some r) prop d) n w = Return unsub w1"
    by (simp add: createSecureBinding_def connect_def Let_def)
  have c2: "\<forall>unsub w1. subscribe (createSecureBinding (Some r) prop d) n w = Return unsub w1 \<longrightarrow>
         (\<forall>v. \<exists>v'. unsub v = Return () v')
         \<and> (\<forall>v. disposed (heap v r) \<longrightarrow> unsub v = Return () v)
         \<and> (\<forall>v. \<not> disposed (heap v r) \<longrightarrow>
               (\<exists>v'. unsub v = Return () v'
                  \<and> handlers (heap v' r) =
                      filter (\<lambda>h. fst h \<noteq> Suc (last_id (heap w r))) (handlers (heap v r))))"
    by (auto simp: createSecureBinding_def connect_def disconnect_def Let_def)
  have c3: "\<forall>acc w1 unsub w2 v. createAccessorBinding prop w = Return acc w1
         \<and> outer_value w = Some r \<and> subscribe acc n w1 = Return unsub w2
         \<and> env_gobj v = Some r \<and> disposed (heap v r) \<longrightarrow>
         unsub v = Throw DisposedError v"
  proof (intro allI impI)
    fix acc :: "jsval accessor" and unsub :: "world \<Rightarrow> unit outcome" and w1 w2 v :: world
    assume h: "createAccessorBinding prop w = Return acc w1
         \<and> outer_value w = Some r \<and> subscribe acc n w1 = Return unsub w2
         \<and> env_gobj v = Some r \<and> disposed (heap v r)"
    then have c: "createAccessorBinding prop w = Return acc w1" by simp
    note n = nested_created [OF disjI1 [OF refl] c]
    from h show "unsub v = Throw DisposedError v"
      by (auto simp: n optional_connect_def connect_def Let_def nested_release_def disconnect_def)
  qed
  from c1 c2 c3 show ?thesis by blast
qed

theorem createSecureBinding_release_guarded_witness:
  "secure_released (dispose 0 (world_of (subscribe (createSecureBinding (Some 0) ''p'' (num (- 1))) 7 world_p5)))
     = Return () (dispose 0 (world_of (subscribe (createSecureBinding (Some 0) ''p'' (num (- 1))) 7 world_p5)))
   \<and> handlers (heap (world_of (subscribe (createSecureBinding (Some 0) ''p'' (num (- 1))) 7 world_p5)) 0)
       = [(1, ''notify::p'', Relay 7)]
   \<and> handlers (heap (world_of (secure_released
         (world_of (subscribe (createSecureBinding (Some 0) ''p'' (num (- 1))) 7 world_p5)))) 0) = []
   \<and> released (subscribed plain_binding 7) (dispose 0 plain_subscribed)
       = Throw DisposedError (dispose 0 plain_subscribed)"
proof -
  let ?b = "createSecureBinding (Some 0) ''p'' (num (- 1))"
  note t = createSecureBinding_release_guarded [of 0 "''p''" "num (- 1)" 7 world_p5]
  from t obtain unsub w1 where s: "subscribe ?b 7 world_p5 = Return unsub w1" by blast
  have h1: "handlers (heap w1 0) = [(1, ''notify::p'', Relay 7)]" and l: "last_id (heap world_p5 0) = 0"
    and nd: "\<not> disposed (heap w1 0)"
    using s by (auto simp: createSecureBinding_def connect_def Let_def world_p5_def empty_obj_def isUpper_def)
  have d: "disposed (heap (dispose 0 w1) 0)" by (simp add: dispose_def)
  from t s have g: "\<forall>v. disposed (heap v 0) \<longrightarrow> unsub v = Return () v"
    and r: "\<forall>v. \<not> disposed (heap v 0) \<longrightarrow>
               (\<exists>v'. unsub v = Return () v'
                  \<and> handlers (heap v' 0) =
                      filter (\<lambda>h. fst h \<noteq> Suc (last_id (heap world_p5 0))) (handlers (heap v 0)))"
    by blast+
  from g d have a: "unsub (dispose 0 w1) = Return () (dispose 0 w1)" by blast
  from r nd obtain v' where "unsub w1 = Return () v'"
    "handlers (heap v' 0) = filter (\<lambda>h. fst h \<noteq> Suc (last_id (heap world_p5 0))) (handlers (heap w1 0))"
    by blast
  then have b: "handlers (heap (world_of (unsub w1)) 0) = []" by (simp add: h1 l)
  obtain acc w1' where c: "createAccessorBinding ''x'' world_AB = Return acc w1'"
    by (simp add: createAccessorBinding_def outer_subscribe_def)
  obtain unsub' w2' where s': "subscribe acc 7 w1' = Return unsub' w2'"
    using nested_subscribe_returns [OF disjI1 [OF refl] c] by blast
  have w2': "plain_subscribed = w2'"
    by (simp add: plain_subscribed_def plain_binding_def subscribed_def c s')
  have e: "env_gobj (dispose 0 w2') = Some 0 \<and> disposed (heap (dispose 0 w2') 0)"
    using w2' [symmetric] by (simp add: scenario_defs)
  have ov: "outer_value world_AB = Some 0" by (simp add: world_AB_def)
  note t' = createSecureBinding_release_guarded [of 0 "''x''" "num 0" 7 world_AB]
  from t' c ov s' e have th: "unsub' (dispose 0 w2') = Throw DisposedError (dispose 0 w2')"
    by blast
  show ?thesis
    using a b h1 th
    by (simp add: secure_released_def released_def s w2' plain_binding_def subscribed_def c s')
qed

text \<open>
  C2, at the failing input. The binding on \<open>x\<close> over host A is subscribed, then the outer
  accessor changes to no host: the change returns and the subscriber is notified once,
  but reading the binding throws a TypeError instead of giving \<^verbatim>\<open>undefined\<close>. When the
  outer accessor changes to host B instead, the subscriber is notified once and the
  binding reads B's value.
\<close>

theorem createAccessorBinding_absent_host:
  "thrown (outer_change None plain_subscribed) = None
   \<and> notified (world_of (outer_change None plain_subscribed)) = [7]
   \<and> read plain_binding (world_of (outer_change None plain_subscribed)) = Inl TypeError
   \<and> notified host_changed = [7]
   \<and> read plain_binding host_changed = Inr (num 2)"
  by (simp add: host_changed_def scenario_defs isUpper_def)

text \<open>
  C3, at the failing input. The outer accessor changes from host A to host B: one
  notification, and the binding reads 2 where it read 1; but the inner listener is still
  connected to A and none is connected to B, so a later change of B's property notifies
  nobody, and unsubscribing leaves A's listener connected. The same when the outer
  accessor resolved to no host at subscribe time and then to B, and for the defaulted
  nested binding.
\<close>

theorem nested_binding_listener_not_moved:
  "read plain_binding plain_subscribed = Inr (num 1)
   \<and> notified host_changed = [7]
   \<and> read plain_binding host_changed = Inr (num 2)
   \<and> handlers (heap host_changed 0) = [(1, ''notify::x'', InnerNotify)]
   \<and> handlers (heap host_changed 1) = []
   \<and> notified (world_of (set_property 1 ''x'' (num 3) host_changed)) = [7]
   \<and> read plain_binding (world_of (set_property 1 ''x'' (num 3) host_changed)) = Inr (num 3)
   \<and> handlers (heap (world_of (released (subscribed plain_binding 7) host_changed)) 0)
       = [(1, ''notify::x'', InnerNotify)]
   \<and> handlers (heap late_subscribed 1) = []
   \<and> notified (world_of (outer_change (Some 1) late_subscribed)) = [7]
   \<and> handlers (heap (world_of (outer_change (Some 1) late_subscribed)) 1) = []
   \<and> handlers (heap (world_of (outer_change (Some 1) secure_subscribed)) 0)
       = [(1, ''notify::x'', InnerNotify)]
   \<and> handlers (heap (world_of (outer_change (Some 1) secure_subscribed)) 1) = []"
  by (simp add: host_changed_def scenario_defs isUpper_def)

text \<open>
  C4, at the failing input. The call of either nested binding attaches its listener to
  the outer accessor at once, before any subscribe, and connects nothing to the host; a
  change of the outer accessor then makes that listener call the unassigned \<^verbatim>\<open>notify\<close>, a
  TypeError. Subscribing connects the inner listener and attaches nothing to the outer
  accessor; the release removes both. So after the first release a second subscribe
  leaves the outer accessor without the binding's listener, and connects the inner
  listener to the host of the first subscription even where the outer accessor has moved
  to host B in between.
\<close>

theorem nested_outer_listener_attached_once:
  "outer_subs world_AB = []
   \<and> outer_subs (world_of plain_binding) = [(0, BaseSub)]
   \<and> handlers (heap (world_of plain_binding) 0) = []
   \<and> thrown (outer_change (Some 1) (world_of plain_binding)) = Some TypeError
   \<and> outer_subs plain_subscribed = [(0, BaseSub)]
   \<and> handlers (heap plain_subscribed 0) = [(1, ''notify::x'', InnerNotify)]
   \<and> outer_subs plain_unsubscribed = []
   \<and> handlers (heap plain_unsubscribed 0) = []
   \<and> outer_subs plain_resubscribed = []
   \<and> handlers (heap plain_resubscribed 0) = [(2, ''notify::x'', InnerNotify)]
   \<and> outer_value plain_moved_resubscribed = Some 1
   \<and> outer_subs plain_moved_resubscribed = []
   \<and> handlers (heap plain_moved_resubscribed 0) = [(2, ''notify::x'', InnerNotify)]
   \<and> handlers (heap plain_moved_resubscribed 1) = []
   \<and> outer_subs (world_of secure_binding) = [(0, BaseSub)]
   \<and> outer_subs secure_resubscribed = []"
  by (simp add: scenario_defs isUpper_def)

text \<open>
  C6, at the failing input. While the first subscription lasts, a change of the outer
  accessor to no host notifies the subscriber once and the binding reads the default.
  After that subscription is released, the outer accessor changes to no host: nothing
  throws, but the binding still reads 1, the property of host A, and not the default;
  with a second subscriber attached, that subscriber is not notified either.
\<close>

theorem createSecureAccessorBinding_stale_after_release:
  "read secure_binding (world_of (outer_change None secure_subscribed)) = Inr (num (- 1))
   \<and> notified (world_of (outer_change None secure_subscribed)) = [7]
   \<and> outer_subs secure_unsubscribed = []
   \<and> thrown (outer_change None secure_unsubscribed) = None
   \<and> outer_value (world_of (outer_change None secure_unsubscribed)) = None
   \<and> read secure_binding (world_of (outer_change None secure_unsubscribed)) = Inr (num 1)
   \<and> notified (world_of (outer_change None secure_unsubscribed)) = []
   \<and> thrown (outer_change None secure_resubscribed) = None
   \<and> outer_value (world_of (outer_change None secure_resubscribed)) = None
   \<and> read secure_binding (world_of (outer_change None secure_resubscribed)) = Inr (num 1)
   \<and> notified (world_of (outer_change None secure_resubscribed)) = []"
  by (simp add: scenario_defs isUpper_def)

subsection \<open>construct\<close>

lemma cur_subscribe [simp]: "cur (snd (acc_subscribe a cb w)) = cur w"
  by (rule ext) (simp add: cur_def acc_subscribe_def Let_def)

lemma cur_assign [simp]: "cur (assign k v w) = cur w"
  by (rule ext) (simp add: cur_def assign_def)

lemma events_subscribe [simp]: "klass_events (snd (acc_subscribe a cb w)) = klass_events w"
  by (simp add: acc_subscribe_def Let_def)

lemma fields_subscribe [simp]: "klass_fields (snd (acc_subscribe a cb w)) = klass_fields w"
  by (simp add: acc_subscribe_def Let_def)

lemma events_assign [simp]: "klass_events (assign k v w) = klass_events w @ [Write k v]"
  by (simp add: assign_def)

lemma fields_assign [simp]: "klass_fields (assign k v w) = (klass_fields w)(k \<mapsto> v)"
  by (simp add: assign_def)

lemma cvalue_cur: "cvalue (accs w a) = cur w a"
  by (simp add: cur_def)

lemma construct_each_events:
  "klass_events (snd (construct_each g props subs w)) = klass_events w @ first_writes (cur w) props"
proof (induction g props subs w rule: construct_each.induct)
  case (3 g k v rest subs w)
  show ?case using "3.IH" [OF refl] by (simp add: Let_def cvalue_cur)
qed simp_all

lemma construct_each_cur: "cur (snd (construct_each g props subs w)) = cur w"
proof (induction g props subs w rule: construct_each.induct)
  case (3 g k v rest subs w)
  show ?case using "3.IH" [OF refl] by (simp add: Let_def)
qed simp_all

lemma construct_each_frame:
  "k \<notin> fst ` set props \<Longrightarrow>
   klass_fields (snd (construct_each g props subs w)) k = klass_fields w k"
proof (induction g props subs w rule: construct_each.induct)
  case (3 g k' v rest subs w)
  show ?case using "3.IH" [OF refl] "3.prems" by (simp add: Let_def)
qed auto


lemma nexts_subscribe [simp]:
  "nexts (snd (acc_subscribe a cb w)) = bump (nexts w) a"
  by (rule ext) (simp add: nexts_def acc_subscribe_def Let_def bump_def)

lemma nexts_assign [simp]: "nexts (assign k v w) = nexts w"
  by (rule ext) (simp add: nexts_def assign_def)

lemma fst_subscribe [simp]: "fst (acc_subscribe a cb w) = (a, nexts w a)"
  by (simp add: acc_subscribe_def Let_def nexts_def)

lemma subscribers_subscribe [simp]:
  "subscribers (accs (snd (acc_subscribe a cb w)) b) =
     (if b = a then subscribers (accs w a) @ [(nexts w a, cb)] else subscribers (accs w b))"
  by (simp add: acc_subscribe_def Let_def nexts_def)

lemma accs_assign [simp]: "accs (assign k v w) = accs w"
  by (simp add: assign_def)


lemma construct_each_subscribers:
  "subscribers (accs (snd (construct_each g props subs w)) a) =
     subscribers (accs w a) @ new_subs a g (nexts w) props"
proof (induction g props subs w rule: construct_each.induct)
  case (3 g k v rest subs w)
  show ?case using "3.IH" [OF refl] by (simp add: Let_def)
qed simp_all

lemma new_subs_callbacks: "map snd (new_subs a g nx props) = bound_to a g props"
  by (induction a g nx props rule: new_subs.induct) simp_all







lemma bound_to_shape: "cb \<in> set (bound_to a g props) \<Longrightarrow> \<exists>k. cb = Assign k a g \<and> (k, Acc a) \<in> set props"
  by (induction a g props rule: bound_to.induct) (auto split: if_splits)

lemma bound_to_mem: "(k, Acc a) \<in> set props \<Longrightarrow> Assign k a g \<in> set (bound_to a g props)"
  by (induction a g props rule: bound_to.induct) (auto split: if_splits)

lemma construct_each_well_formed: "well_formed w \<Longrightarrow> well_formed (snd (construct_each g props subs w))"
  unfolding well_formed_def
proof (intro allI ballI)
  fix a s
  assume w: "\<forall>a. \<forall>s\<in>set (subscribers (accs w a)). \<exists>k g. snd s = Assign k a g"
    and s: "s \<in> set (subscribers (accs (snd (construct_each g props subs w)) a))"
  from s have "s \<in> set (subscribers (accs w a)) \<or> s \<in> set (new_subs a g (nexts w) props)"
    by (simp add: construct_each_subscribers)
  then show "\<exists>k g. snd s = Assign k a g"
  proof
    assume "s \<in> set (subscribers (accs w a))" with w show ?thesis by blast
  next
    assume "s \<in> set (new_subs a g (nexts w) props)"
    then have "snd s \<in> set (bound_to a g props)"
      using new_subs_callbacks [of a g "nexts w" props] by (metis image_eqI set_map)
    then show ?thesis using bound_to_shape by blast
  qed
qed

lemma accs_run_ccallback [simp]: "accs (run_ccallback cb w) = accs w"
  by (cases cb) (simp add: Let_def klass_notify_def)

lemma accs_fold_run [simp]: "accs (fold run_ccallback cbs w) = accs w"
  by (induction cbs arbitrary: w) simp_all

lemma accs_acc_change:
  "accs (acc_change a x w) = (accs w)(a := (accs w a)\<lparr>cvalue := x\<rparr>)"
  by (simp add: acc_change_def Let_def)

lemma subscribers_acc_change [simp]:
  "subscribers (accs (acc_change a x w) b) = subscribers (accs w b)"
  by (simp add: accs_acc_change)

lemma subscribers_changes [simp]:
  "subscribers (accs (changes cs w) b) = subscribers (accs w b)"
  by (induction cs w rule: changes.induct) simp_all

lemma fold_run_events:
  "\<forall>cb \<in> set cbs. \<exists>k g. cb = Assign k a g \<Longrightarrow>
   klass_events (fold run_ccallback cbs w) = klass_events w @ change_events (cvalue (accs w a)) cbs"
proof (induction cbs arbitrary: w)
  case Nil show ?case by simp
next
  case (Cons cb cbs)
  then obtain k g where cb: "cb = Assign k a g" by auto
  from Cons have "klass_events (fold run_ccallback cbs (run_ccallback cb w)) =
     klass_events (run_ccallback cb w) @ change_events (cvalue (accs (run_ccallback cb w) a)) cbs"
    by simp
  then show ?case by (simp add: cb Let_def klass_notify_def)
qed



lemma acc_change_events:
  "well_formed w \<Longrightarrow> klass_events (acc_change a x w) =
     klass_events w @ change_events x (map snd (subscribers (accs w a)))"
proof -
  assume "well_formed w"
  then have all: "\<forall>cb \<in> set (map snd (subscribers (accs w a))). \<exists>k g. cb = Assign k a g"
    by (auto simp: well_formed_def)
  let ?w = "w\<lparr>accs := (accs w)(a := (accs w a)\<lparr>cvalue := x\<rparr>)\<rparr>"
  from fold_run_events [OF all, of ?w] show ?thesis
    by (simp add: acc_change_def Let_def)
qed


lemma well_formed_acc_change: "well_formed w \<Longrightarrow> well_formed (acc_change a x w)"
  by (simp add: well_formed_def)

lemma well_formed_changes: "well_formed w \<Longrightarrow> well_formed (changes cs w)"
  by (induction cs w rule: changes.induct) (simp_all add: well_formed_acc_change)


lemma first_writes_no_notify: "Notify name \<notin> set (first_writes cv props)"
  by (induction cv props rule: first_writes.induct) auto

lemma change_events_notify:
  "Assign k a True \<in> set cbs \<Longrightarrow> Notify (kebab k) \<in> set (change_events x cbs)"
  by (induction x cbs rule: change_events.induct) auto

lemma change_events_plain:
  "\<forall>cb \<in> set cbs. \<exists>k a. cb = Assign k a False \<Longrightarrow> Notify name \<notin> set (change_events x cbs)"
  by (induction x cbs rule: change_events.induct) auto


lemma kebab_fooBar: "kebab ''fooBar'' = ''foo-bar''"
  by code_simp


text \<open>
  C10. The call of construct itself emits no notification, whether or not the target is a
  GObject: it only assigns. Fields that the props do not name stay as they were. The
  kebab-case notification of a GObject target comes from the subscribed callback, on a
  later change of the accessor.
\<close>

theorem construct_frame:
  assumes "construct props w = (subs, w')"
  shows "(\<exists>ws. klass_events w' = klass_events w @ ws \<and> (\<forall>name. Notify name \<notin> set ws))
    \<and> (\<forall>k. k \<notin> fst ` set props \<longrightarrow> klass_fields w' k = klass_fields w k)
    \<and> (well_formed w \<and> klass_isGObject w \<longrightarrow>
         (\<forall>cs a x k. (k, Acc a) \<in> set props \<longrightarrow>
            (\<exists>ws. klass_events (acc_change a x (changes cs w')) = klass_events (changes cs w') @ ws
                  \<and> Notify (kebab k) \<in> set ws)))"
proof -
  let ?g = "klass_isGObject w"
  from assms have w': "w' = snd (construct_each ?g props [] w)"
    by (simp add: construct_def)
  have c1: "\<exists>ws. klass_events w' = klass_events w @ ws \<and> (\<forall>name. Notify name \<notin> set ws)"
    using construct_each_events [of ?g props "[]" w] first_writes_no_notify [of _ "cur w" props]
    by (auto simp: w')
  have c2: "\<forall>k. k \<notin> fst ` set props \<longrightarrow> klass_fields w' k = klass_fields w k"
    by (simp add: w' construct_each_frame)
  have c3: "well_formed w \<and> klass_isGObject w \<longrightarrow>
         (\<forall>cs a x k. (k, Acc a) \<in> set props \<longrightarrow>
            (\<exists>ws. klass_events (acc_change a x (changes cs w')) = klass_events (changes cs w') @ ws
                  \<and> Notify (kebab k) \<in> set ws))"
  proof (intro impI allI)
    fix cs a x k
    assume h: "well_formed w \<and> klass_isGObject w" and m: "(k, Acc a) \<in> set props"
    from h have wf': "well_formed (changes cs w')"
      by (simp add: w' construct_each_well_formed well_formed_changes)
    have "Assign k a True \<in> set (map snd (subscribers (accs (changes cs w') a)))"
      using bound_to_mem [OF m, of True] h
      by (simp add: w' construct_each_subscribers new_subs_callbacks)
    then have "Notify (kebab k) \<in> set (change_events x (map snd (subscribers (accs (changes cs w') a))))"
      by (rule change_events_notify)
    with acc_change_events [OF wf', of a x]
    show "\<exists>ws. klass_events (acc_change a x (changes cs w')) = klass_events (changes cs w') @ ws
                  \<and> Notify (kebab k) \<in> set ws"
      by blast
  qed
  from c1 c2 c3 show ?thesis by blast
qed

theorem construct_frame_witness:
  "klass_isGObject cworld0
   \<and> (\<exists>ws. klass_events (snd (construct props0 cworld0)) = klass_events cworld0 @ ws
           \<and> (\<forall>name. Notify name \<notin> set ws))
   \<and> klass_fields (snd (construct props0 cworld0)) ''other'' = klass_fields cworld0 ''other''
   \<and> (\<exists>ws. klass_events (acc_change 0 (num 3) (snd (construct props0 cworld0))) =
             klass_events (snd (construct props0 cworld0)) @ ws
           \<and> Notify ''foo-bar'' \<in> set ws)"
proof -
  have c: "construct props0 cworld0 = (fst (construct props0 cworld0), snd (construct props0 cworld0))"
    by simp
  have g: "well_formed cworld0 \<and> klass_isGObject cworld0"
    by (simp add: well_formed_def cworld0_def)
  note t = construct_frame [OF c]
  from t have c1: "\<exists>ws. klass_events (snd (construct props0 cworld0)) = klass_events cworld0 @ ws
           \<and> (\<forall>name. Notify name \<notin> set ws)"
    by blast
  from t have c2: "klass_fields (snd (construct props0 cworld0)) ''other'' = klass_fields cworld0 ''other''"
    by (simp add: props0_def)
  from t g have "\<forall>cs a x k. (k, Acc a) \<in> set props0 \<longrightarrow>
      (\<exists>ws. klass_events (acc_change a x (changes cs (snd (construct props0 cworld0)))) =
             klass_events (changes cs (snd (construct props0 cworld0))) @ ws
           \<and> Notify (kebab k) \<in> set ws)"
    by blast
  from this [rule_format, of "''fooBar''" 0 "num 3" "[]"]
  have c3: "\<exists>ws. klass_events (acc_change 0 (num 3) (snd (construct props0 cworld0))) =
             klass_events (snd (construct props0 cworld0)) @ ws
           \<and> Notify ''foo-bar'' \<in> set ws"
    by (simp add: props0_def kebab_fooBar del: kebab.simps)
  from g c1 c2 c3 show ?thesis by blast
qed

end
